theory Spec2Isabelle
  imports Main
begin

unbundle bit_operations_syntax

section \<open>JavaScript values used by the expander\<close>

subsection \<open>Strings\<close>

text \<open>
  A JavaScript string is modelled as a \<^typ>\<open>string\<close>: a list of code units below 256.
  \<open>String.prototype.trim\<close> removes white space and line terminators at both ends; of
  those, the code units below 256 are TAB, LF, VT, FF, CR, SPACE and NBSP.
\<close>

definition is_ws :: "char \<Rightarrow> bool" where
  "is_ws c = (c \<in> {CHR 0x09, CHR 0x0A, CHR 0x0B, CHR 0x0C, CHR 0x0D, CHR 0x20, CHR 0xA0})"

definition trim :: "string \<Rightarrow> string" where
  "trim s = rev (dropWhile is_ws (rev (dropWhile is_ws s)))"

text \<open>\<open>content.split('\n')\<close>: the pieces between line feeds; one more piece than line feeds.\<close>

fun split_nl :: "string \<Rightarrow> string list" where
  "split_nl [] = [[]]"
| "split_nl (c # cs) =
     (if c = CHR 0x0A then [] # split_nl cs
      else (case split_nl cs of
              [] \<Rightarrow> [[c]]
            | l # ls \<Rightarrow> (c # l) # ls))"

subsection \<open>Sets\<close>

text \<open>
  A JavaScript \<open>Set\<close> keeps its members in insertion order and ignores the insertion of
  a member it already has: a list without repetitions, extended at the end.
\<close>

type_synonym 'a js_set = "'a list"

definition set_add :: "'a \<Rightarrow> 'a js_set \<Rightarrow> 'a js_set" where
  "set_add x s = (if x \<in> set s then s else s @ [x])"

definition set_add_all :: "'a list \<Rightarrow> 'a js_set \<Rightarrow> 'a js_set" where
  "set_add_all xs s = fold set_add xs s"

definition new_Set :: "'a list \<Rightarrow> 'a js_set" where
  "new_Set xs = set_add_all xs []"

subsection \<open>The extraction cache\<close>

text \<open>
  Modelled from the spec: the \<open>quick-lru\<close> package is not part of the sources. The spec
  describes the Extraction Cache as a bounded least-recently-used map from a trimmed line
  to the set of candidates it yields. It is modelled as an association list, most
  recently used entry first, cut to \<open>maxSize\<close> entries on insertion.
\<close>

type_synonym lru = "(string \<times> string js_set) list"

definition lru_has :: "lru \<Rightarrow> string \<Rightarrow> bool" where
  "lru_has c k = (map_of c k \<noteq> None)"

definition lru_touch :: "lru \<Rightarrow> string \<Rightarrow> lru" where
  "lru_touch c k =
     (case map_of c k of
        None \<Rightarrow> c
      | Some v \<Rightarrow> (k, v) # filter (\<lambda>p. fst p \<noteq> k) c)"

definition lru_get :: "lru \<Rightarrow> string \<Rightarrow> string js_set option" where
  "lru_get c k = map_of c k"

definition lru_set :: "nat \<Rightarrow> lru \<Rightarrow> string \<Rightarrow> string js_set \<Rightarrow> lru" where
  "lru_set maxSize c k v = take maxSize ((k, v) # filter (\<lambda>p. fst p \<noteq> k) c)"

definition maxSize :: nat where
  "maxSize = 25000"

section \<open>Errors\<close>

text \<open>
  A pass is aborted by an error that a collaborator throws, or by the \<open>TypeError\<close> of the
  runtime when a value is used as what it is not. Nothing in the module catches an error.
  A step that may throw returns the error, if any, with the state as the error leaves it.
\<close>

datatype error = TypeError | Thrown string

text \<open>A \<open>for ... of\<close> loop whose body may throw: it stops at the first error.\<close>

fun forEach :: "('a \<Rightarrow> 's \<Rightarrow> error option \<times> 's) \<Rightarrow> 'a list \<Rightarrow> 's \<Rightarrow> error option \<times> 's" where
  "forEach body [] s = (None, s)"
| "forEach body (x # xs) s =
     (case body x s of
        (Some e, s') \<Rightarrow> (Some e, s')
      | (None, s') \<Rightarrow> forEach body xs s')"

section \<open>Extractors, transformers and the configuration\<close>

text \<open>
  A value that is used as an extractor is an object: the \<open>WeakMap\<close> of extraction caches
  is keyed by its identity, \<open>ex_id\<close>. \<open>ex_run line\<close> is the array of \<open>extractor(line)\<close>, or
  the error thrown by the call (also when the value is no function) or by \<open>.filter\<close> on a
  result that is no array.
\<close>

record extractor =
  ex_id :: nat
  ex_run :: "string \<Rightarrow> error + string list"

text \<open>
  What a transformer returns: a text, or a value that is no text, on which \<open>.split\<close> is
  no function. A value that is used as a transformer returns such a value or throws.
\<close>

datatype content_value = Text string | NoText

type_synonym transformer = "string \<Rightarrow> error + content_value"

text \<open>
  The objects \<open>content.extract\<close> and \<open>content.transform\<close> of the configuration, by their own
  properties.
\<close>

record content_config =
  content_extract :: "string \<rightharpoonup> extractor"
  content_transform :: "string \<rightharpoonup> transformer"

text \<open>\<open>object[key]\<close> on a plain object: its own property, otherwise the inherited member.\<close>

definition property :: "(string \<rightharpoonup> 'a) \<Rightarrow> (string \<rightharpoonup> 'a) \<Rightarrow> string \<rightharpoonup> 'a" where
  "property inherited own key = (case own key of Some v \<Rightarrow> Some v | None \<Rightarrow> inherited key)"

text \<open>
  The \<open>svelte\<close> transformer replaces every match of \<open>/(?:^|\s)class:/g\<close> by a space. A
  match is \<open>class:\<close> at the very start of the text, or a white-space character followed
  by \<open>class:\<close>; matches are found left to right and do not overlap. \<open>svelte_from n s\<close>
  rewrites \<open>s\<close>, whose first \<open>n\<close> characters belong to the match just replaced.
\<close>

fun svelte_from :: "nat \<Rightarrow> string \<Rightarrow> string" where
  "svelte_from n [] = []"
| "svelte_from (Suc n) (c # cs) = svelte_from n cs"
| "svelte_from 0 (c # cs) =
     (if is_ws c \<and> take 6 cs = ''class:'' then CHR '' '' # svelte_from 6 cs
      else c # svelte_from 0 cs)"

definition svelte :: "string \<Rightarrow> string" where
  "svelte content =
     (if take 6 content = ''class:'' then CHR '' '' # svelte_from 6 content
      else svelte_from 0 content)"

definition builtInTransformers :: "string \<rightharpoonup> transformer" where
  "builtInTransformers =
     [''DEFAULT'' \<mapsto> (\<lambda>content. Inr (Text content)),
      ''svelte'' \<mapsto> (\<lambda>content. Inr (Text (svelte content)))]"

definition builtInExtractors :: "extractor \<Rightarrow> (string \<rightharpoonup> extractor)" where
  "builtInExtractors defaultExtractor = [''DEFAULT'' \<mapsto> defaultExtractor]"

text \<open>
  \<open>a || b\<close> on property lookups: the first of the lookups that is defined. The last
  lookup, of the own property \<open>DEFAULT\<close> of the built-in object, is always defined.
\<close>

definition getExtractor ::
  "(string \<rightharpoonup> extractor) \<Rightarrow> extractor \<Rightarrow> content_config \<Rightarrow> string \<Rightarrow> extractor" where
  "getExtractor inherited defaultExtractor tailwindConfig fileExtension =
     (let extractors = property inherited (content_extract tailwindConfig);
          builtIn = property inherited (builtInExtractors defaultExtractor)
      in case extractors fileExtension of Some e \<Rightarrow> e | None \<Rightarrow>
        (case extractors ''DEFAULT'' of Some e \<Rightarrow> e | None \<Rightarrow>
        (case builtIn fileExtension of Some e \<Rightarrow> e | None \<Rightarrow>
         defaultExtractor)))"

definition getTransformer ::
  "(string \<rightharpoonup> transformer) \<Rightarrow> content_config \<Rightarrow> string \<Rightarrow> transformer" where
  "getTransformer inherited tailwindConfig fileExtension =
     (let transformers = property inherited (content_transform tailwindConfig);
          builtIn = property inherited builtInTransformers
      in case transformers fileExtension of Some f \<Rightarrow> f | None \<Rightarrow>
        (case transformers ''DEFAULT'' of Some f \<Rightarrow> f | None \<Rightarrow>
        (case builtIn fileExtension of Some f \<Rightarrow> f | None \<Rightarrow>
         (\<lambda>content. Inr (Text content)))))"

section \<open>The candidate collector\<close>

text \<open>
  The state \<open>getClassCandidates\<close> works on: its two set arguments, which it extends in
  place, the module's \<open>extractorCache\<close>, and the trace of the extractor calls made
  (which extractor, on which line), in order.
\<close>

record collector =
  candidates :: "string js_set"
  seen :: "string js_set"
  extractorCache :: "nat \<rightharpoonup> lru"
  extractorCalls :: "(nat \<times> string) list"

definition cache_of :: "collector \<Rightarrow> extractor \<Rightarrow> lru" where
  "cache_of st ex = (case extractorCache st (ex_id ex) of None \<Rightarrow> [] | Some c \<Rightarrow> c)"

text \<open>The extractor's matches on a line, without the token \<open>!*\<close>, as a set.\<close>

definition lineMatchesSet :: "string list \<Rightarrow> string js_set" where
  "lineMatchesSet matches = new_Set (filter (\<lambda>s. s \<noteq> ''!*'') matches)"

text \<open>The body of the loop over the lines.\<close>

definition processLine :: "extractor \<Rightarrow> string \<Rightarrow> collector \<Rightarrow> error option \<times> collector" where
  "processLine ex line0 st =
     (let line = trim line0 in
      if line \<in> set (seen st) then (None, st)
      else
        let st1 = st\<lparr>seen := set_add line (seen st)\<rparr>;
            cache = cache_of st1 ex
        in if lru_has cache line then
             (case lru_get cache line of
                None \<Rightarrow> (None, st1)
              | Some ms \<Rightarrow>
                  (None,
                   st1\<lparr>candidates := set_add_all ms (candidates st1),
                       extractorCache := (extractorCache st1)(ex_id ex \<mapsto> lru_touch cache line)\<rparr>))
           else
             (let st2 = st1\<lparr>extractorCalls := extractorCalls st1 @ [(ex_id ex, line)]\<rparr> in
              case ex_run ex line of
                Inl e \<Rightarrow> (Some e, st2)
              | Inr matches \<Rightarrow>
                  (let ms = lineMatchesSet matches in
                   (None,
                    st2\<lparr>candidates := set_add_all ms (candidates st2),
                        extractorCache :=
                          (extractorCache st2)(ex_id ex \<mapsto> lru_set maxSize cache line ms)\<rparr>))))"

definition getClassCandidates ::
  "content_value \<Rightarrow> extractor \<Rightarrow> collector \<Rightarrow> error option \<times> collector" where
  "getClassCandidates content ex st =
     (let st0 = (if extractorCache st (ex_id ex) = None
                 then st\<lparr>extractorCache := (extractorCache st)(ex_id ex \<mapsto> [])\<rparr>
                 else st)
      in case content of
           NoText \<Rightarrow> (Some TypeError, st0)
         | Text s \<Rightarrow> forEach (processLine ex) (split_nl s) st0)"

section \<open>The syntax tree\<close>

text \<open>
  The tree of the CSS parser is given, not part of the sources. A node is an object:
  \<open>nid\<close> is its identity. \<open>Orig n\<close> is an object that exists before the pass, and
  \<open>Copy k i\<close> is the copy of the object \<open>i\<close> made by the \<open>k\<close>-th call of \<open>cloneNodes\<close>.
  \<open>name\<close> and \<open>params\<close> are those of an at-rule, \<open>source\<close> is the source location (if
  defined) and \<open>parentLayer\<close> is \<open>raws.tailwind?.parentLayer\<close> (if defined).
\<close>

datatype ident = Orig nat | Copy nat ident

datatype node_type = Document | Root | AtRule | Rule | Decl | Comment

datatype node =
  Node (nid: ident) (ntype: node_type) (name: string) (params: string)
       (source: "nat option") (parentLayer: "string option") (nodes: "node list")

section \<open>The stylesheet assembler\<close>

text \<open>
  An entry of the rule cache is the array \<open>[sort, rule]\<close>; a sort key is a BigInt. The
  array is an object, and the rule cache is a set of such objects: a \<open>cached_rule\<close> is
  the identity of the array with its contents.
\<close>

type_synonym entry = "int \<times> node"

type_synonym cached_rule = "nat \<times> entry"

record layerOrder =
  order_base :: int
  order_defaults :: int
  order_components :: int
  order_utilities :: int
  order_user :: int

record stylesheet =
  base :: "node js_set"
  defaults :: "node js_set"
  components :: "node js_set"
  utilities :: "node js_set"
  variants :: "node js_set"
  user :: "node js_set"

text \<open>
  The build context. \<open>classCache\<close> is a \<open>Map\<close>, given by its entries; only its size is
  read here.
\<close>

record build_context =
  changedContent :: "(string \<times> string) list"
  tailwindConfig :: content_config
  classCache :: "(string \<times> entry list) list"
  ruleCache :: "cached_rule js_set"
  stylesheetCache :: "stylesheet option"
  minimumScreen :: int
  layerOrder :: layerOrder

text \<open>
  Modelled from the spec: \<open>bigSign\<close> is imported from a module that is not part of the
  sources. The spec names the comparator the sign of the difference of the keys.
\<close>

definition bigSign :: "int \<Rightarrow> int" where
  "bigSign n = sgn n"

text \<open>
  \<open>Array.prototype.sort\<close> with a comparator: a stable sort, \<open>x\<close> staying before \<open>y\<close>
  when the comparator is not positive on them.
\<close>

fun insert_sorted :: "('a \<Rightarrow> 'a \<Rightarrow> int) \<Rightarrow> 'a \<Rightarrow> 'a list \<Rightarrow> 'a list" where
  "insert_sorted cmp x [] = [x]"
| "insert_sorted cmp x (y # ys) =
     (if cmp x y \<le> 0 then x # y # ys else y # insert_sorted cmp x ys)"

definition array_sort :: "('a \<Rightarrow> 'a \<Rightarrow> int) \<Rightarrow> 'a list \<Rightarrow> 'a list" where
  "array_sort cmp xs = foldr (insert_sorted cmp) xs []"

definition emptyStylesheet :: stylesheet where
  "emptyStylesheet =
     \<lparr>base = [], defaults = [], components = [], utilities = [], variants = [], user = []\<rparr>"

text \<open>The body of the loop over the sorted rules; a BigInt is true when it is not zero.\<close>

definition addRule :: "build_context \<Rightarrow> entry \<Rightarrow> stylesheet \<Rightarrow> stylesheet" where
  "addRule context e returnValue =
     (let sort = fst e; rule = snd e in
      if sort \<ge> minimumScreen context then
        returnValue\<lparr>variants := set_add rule (variants returnValue)\<rparr>
      else if sort AND order_base (layerOrder context) \<noteq> 0 then
        returnValue\<lparr>base := set_add rule (base returnValue)\<rparr>
      else if sort AND order_defaults (layerOrder context) \<noteq> 0 then
        returnValue\<lparr>defaults := set_add rule (defaults returnValue)\<rparr>
      else if sort AND order_components (layerOrder context) \<noteq> 0 then
        returnValue\<lparr>components := set_add rule (components returnValue)\<rparr>
      else if sort AND order_utilities (layerOrder context) \<noteq> 0 then
        returnValue\<lparr>utilities := set_add rule (utilities returnValue)\<rparr>
      else if sort AND order_user (layerOrder context) \<noteq> 0 then
        returnValue\<lparr>user := set_add rule (user returnValue)\<rparr>
      else returnValue)"

definition buildStylesheet :: "entry list \<Rightarrow> build_context \<Rightarrow> stylesheet" where
  "buildStylesheet rules context =
     (let sortedRules = array_sort (\<lambda>a z. bigSign (fst a - fst z)) rules
      in fold (addRule context) sortedRules emptyStylesheet)"

subsection \<open>The partition, in the words of the specification\<close>

datatype bucket = Variants | Base | Defaults | Components | Utilities | User

definition bucket_of :: "bucket \<Rightarrow> stylesheet \<Rightarrow> node js_set" where
  "bucket_of b s =
     (case b of Variants \<Rightarrow> variants s | Base \<Rightarrow> base s | Defaults \<Rightarrow> defaults s
      | Components \<Rightarrow> components s | Utilities \<Rightarrow> utilities s | User \<Rightarrow> user s)"

definition layer_bits :: "build_context \<Rightarrow> (bucket \<times> int) list" where
  "layer_bits context =
     [(Base, order_base (layerOrder context)),
      (Defaults, order_defaults (layerOrder context)),
      (Components, order_components (layerOrder context)),
      (Utilities, order_utilities (layerOrder context)),
      (User, order_user (layerOrder context))]"

text \<open>
  The bucket of a sort key: variants at or above the minimum variant threshold, otherwise
  the first layer, in the fixed order, whose bit is set in the key; none if there is no
  such layer.
\<close>

definition route :: "build_context \<Rightarrow> int \<Rightarrow> bucket option" where
  "route context k =
     (if k \<ge> minimumScreen context then Some Variants
      else map_option fst (find (\<lambda>p. k AND snd p \<noteq> 0) (layer_bits context)))"

section \<open>Operations of the syntax tree\<close>

text \<open>
  \<open>walk\<close> visits the descendants of a container in document order, a node before its
  children. The callbacks of this module never return \<open>false\<close>, so every descendant is
  visited.
\<close>

fun walk :: "node \<Rightarrow> node list" where
  "walk (Node i t n p s pl cs) = concat (map (\<lambda>c. c # walk c) cs)"

text \<open>\<open>parent.index(child)\<close>: the position of the child among \<open>parent.nodes\<close>, or \<open>-1\<close>.\<close>

fun indexOf :: "ident list \<Rightarrow> ident \<Rightarrow> int" where
  "indexOf [] x = -1"
| "indexOf (y # ys) x =
     (if y = x then 0 else (let i = indexOf ys x in if i = -1 then -1 else i + 1))"

definition index :: "node \<Rightarrow> node \<Rightarrow> int" where
  "index parent child = indexOf (map nid (nodes parent)) (nid child)"

text \<open>
  \<open>node.before(add)\<close> puts the nodes \<open>add\<close> in front of \<open>node\<close> in the children of its
  parent, and \<open>node.remove()\<close> takes the node, with its descendants, out of the children of
  its parent. Both are given here on the tree that holds the node, found by its identity;
  a node that is not in the tree (any more) leaves the tree as it is.
\<close>

fun insertBefore :: "ident \<Rightarrow> node list \<Rightarrow> node \<Rightarrow> node" where
  "insertBefore x add (Node i t n p s pl cs) =
     Node i t n p s pl
       (concat (map (\<lambda>c. if nid c = x then add @ [c] else [insertBefore x add c]) cs))"

fun removeNode :: "ident \<Rightarrow> node \<Rightarrow> node" where
  "removeNode x (Node i t n p s pl cs) =
     Node i t n p s pl (map (removeNode x) (filter (\<lambda>c. nid c \<noteq> x) cs))"

text \<open>\<open>updateNode x f\<close> is the tree after the operation \<open>f\<close> on the container \<open>x\<close> in it.\<close>

fun updateNode :: "ident \<Rightarrow> (node \<Rightarrow> node) \<Rightarrow> node \<Rightarrow> node" where
  "updateNode x f (Node i t n p s pl cs) =
     (if i = x then f (Node i t n p s pl cs)
      else Node i t n p s pl (map (updateNode x f) cs))"

definition appendNodes :: "node list \<Rightarrow> node \<Rightarrow> node" where
  "appendNodes add container =
     Node (nid container) (ntype container) (name container) (params container)
       (source container) (parentLayer container) (nodes container @ add)"

text \<open>
  Modelled from the spec: \<open>cloneNodes\<close> is imported from a module that is not part of the
  sources. The spec asks for deep copies, independent objects, that inherit the source
  location of the directive.
\<close>

fun relabel :: "nat \<Rightarrow> node \<Rightarrow> node" where
  "relabel k (Node i t n p s pl cs) = Node (Copy k i) t n p s pl (map (relabel k) cs)"

definition with_source :: "nat option \<Rightarrow> node \<Rightarrow> node" where
  "with_source src c =
     (case src of
        None \<Rightarrow> c
      | Some l \<Rightarrow> Node (nid c) (ntype c) (name c) (params c) (Some l) (parentLayer c) (nodes c))"

definition cloneNodes :: "nat \<Rightarrow> node list \<Rightarrow> nat option \<Rightarrow> node list" where
  "cloneNodes k ns src = map (\<lambda>node. with_source src (relabel k node)) ns"

section \<open>The at-rule expander\<close>

text \<open>
  \<open>layerNodes\<close> is an object with the four keys \<open>base\<close>, \<open>components\<close>, \<open>utilities\<close> and
  \<open>variants\<close>; a key that holds \<open>null\<close> is undefined in the map.
\<close>

type_synonym layerNodes = "string \<rightharpoonup> node"

definition layerKeys :: "string list" where
  "layerKeys = [''base'', ''components'', ''utilities'', ''variants'']"

text \<open>The callback of the first walk, on the at-rules.\<close>

definition recordLayerNode :: "node \<Rightarrow> layerNodes \<Rightarrow> layerNodes" where
  "recordLayerNode rule layerNodes =
     (if ntype rule = AtRule \<and> name rule = ''tailwind'' \<and> params rule \<in> set layerKeys
      then layerNodes(params rule \<mapsto> rule)
      else layerNodes)"

definition scanLayerNodes :: "node \<Rightarrow> layerNodes" where
  "scanLayerNodes root = fold recordLayerNode (walk root) Map.empty"

definition noLayerNodes :: "layerNodes \<Rightarrow> bool" where
  "noLayerNodes layerNodes = list_all (\<lambda>k. layerNodes k = None) layerKeys"

text \<open>
  \<open>findRootInDocument\<close> returns the node and the codes of the warnings it logs.
\<close>

definition isRootOf :: "layerNodes \<Rightarrow> node \<Rightarrow> bool" where
  "isRootOf layerNodes node =
     (if ntype node \<noteq> Root then False
      else if (case layerNodes ''components'' of
                 None \<Rightarrow> False | Some c \<Rightarrow> index node c \<noteq> -1) then True
      else if (case layerNodes ''utilities'' of
                 None \<Rightarrow> False | Some u \<Rightarrow> index node u \<noteq> -1) then True
      else False)"

definition findRootInDocument :: "node \<Rightarrow> layerNodes \<Rightarrow> node \<times> string list" where
  "findRootInDocument doc layerNodes =
     (if layerNodes ''variants'' \<noteq> None then (doc, [])
      else
        let roots = filter (isRootOf layerNodes) (nodes doc) in
        if roots = [] then (doc, [''postcss-document-root-missing''])
        else (last roots, []))"

text \<open>
  The collaborators that are not part of the sources are parameters: the default
  extractor; the rule generator, which returns the generated entries, or the error it
  throws, and the class cache as it leaves it; and the members that a plain object
  inherits from \<open>Object.prototype\<close> (\<open>constructor\<close>, \<open>toString\<close>, \<open>valueOf\<close>, ...), as
  they behave when used as an extractor and as a transformer.
\<close>

record collaborators =
  defaultExtractor :: extractor
  generateRules ::
    "string js_set \<Rightarrow> build_context \<Rightarrow> (error + cached_rule list) \<times> (string \<times> entry list) list"
  inheritedExtractor :: "string \<rightharpoonup> extractor"
  inheritedTransformer :: "string \<rightharpoonup> transformer"

text \<open>
  The state a pass works on besides the tree: the build context, the module's
  \<open>extractorCache\<close>, the codes of the warnings logged, the number of calls of
  \<open>cloneNodes\<close> so far, and two traces: the extractor calls and the candidate sets that
  the rule generator was called on.
\<close>

record world =
  the_context :: build_context
  caches :: "nat \<rightharpoonup> lru"
  warnings :: "string list"
  clones :: nat
  calls :: "(nat \<times> string) list"
  generated :: "string js_set list"

text \<open>The loop over the changed content, on the sets \<open>candidates\<close> and \<open>seen\<close>.\<close>

definition readContent ::
  "collaborators \<Rightarrow> content_config \<Rightarrow> string \<times> string \<Rightarrow> collector \<Rightarrow> error option \<times> collector" where
  "readContent env config unit st =
     (let content = fst unit; extension = snd unit;
          transformer = getTransformer (inheritedTransformer env) config extension;
          extractor = getExtractor (inheritedExtractor env) (defaultExtractor env) config extension
      in case transformer content of
           Inl e \<Rightarrow> (Some e, st)
         | Inr transformed \<Rightarrow> getClassCandidates transformed extractor st)"

definition readChangedContent :: "collaborators \<Rightarrow> world \<Rightarrow> error option \<times> collector" where
  "readChangedContent env w =
     forEach (readContent env (tailwindConfig (the_context w))) (changedContent (the_context w))
       \<lparr>candidates = [''*''], seen = [], extractorCache = caches w, extractorCalls = calls w\<rparr>"

text \<open>
  \<open>ruleCache.add(rule)\<close>: the set has the array when it has one of the same identity.
\<close>

definition cache_add :: "cached_rule \<Rightarrow> cached_rule js_set \<Rightarrow> cached_rule js_set" where
  "cache_add r s = (if fst r \<in> set (map fst s) then s else s @ [r])"

text \<open>
  The step that builds the stylesheet, given the generated rules and the size of the class
  cache before the generation. \<open>[...context.ruleCache]\<close> is the list of the arrays.
\<close>

definition buildStep :: "cached_rule list \<Rightarrow> nat \<Rightarrow> build_context \<Rightarrow> build_context" where
  "buildStep rules classCacheCount context =
     (if stylesheetCache context = None \<or> length (classCache context) \<noteq> classCacheCount then
        (let context1 = context\<lparr>ruleCache := fold cache_add rules (ruleCache context)\<rparr>
         in context1\<lparr>stylesheetCache :=
                       Some (buildStylesheet (map snd (ruleCache context1)) context1)\<rparr>)
      else context)"

text \<open>The generation of the rules followed by that step.\<close>

definition generateAndBuild ::
  "collaborators \<Rightarrow> string js_set \<Rightarrow> build_context \<Rightarrow> error option \<times> build_context" where
  "generateAndBuild env cands context =
     (let classCacheCount = length (classCache context);
          r = generateRules env cands context;
          context1 = context\<lparr>classCache := snd r\<rparr>
      in case fst r of
           Inl e \<Rightarrow> (Some e, context1)
         | Inr rules \<Rightarrow> (None, buildStep rules classCacheCount context1))"

text \<open>The stylesheet read after it; the cache is never \<open>null\<close> there.\<close>

definition cachedStylesheet :: "build_context \<Rightarrow> stylesheet" where
  "cachedStylesheet context =
     (case stylesheetCache context of None \<Rightarrow> emptyStylesheet | Some s \<Rightarrow> s)"

text \<open>
  The replacement of a directive: copies of the rules in front of it, then its removal.
  The state is the tree and the number of calls of \<open>cloneNodes\<close>.
\<close>

definition replaceDirective :: "node option \<Rightarrow> node list \<Rightarrow> node \<times> nat \<Rightarrow> node \<times> nat" where
  "replaceDirective layerNode rules st =
     (case layerNode of
        None \<Rightarrow> st
      | Some d \<Rightarrow>
          (removeNode (nid d) (insertBefore (nid d) (cloneNodes (snd st) rules (source d)) (fst st)),
           Suc (snd st)))"

text \<open>The filter on the variant rules.\<close>

definition keepVariant :: "layerNodes \<Rightarrow> node \<Rightarrow> bool" where
  "keepVariant layerNodes node =
     (if parentLayer node = Some ''components'' then layerNodes ''components'' \<noteq> None
      else if parentLayer node = Some ''utilities'' then layerNodes ''utilities'' \<noteq> None
      else True)"

definition variantNodes :: "layerNodes \<Rightarrow> node js_set \<Rightarrow> node list" where
  "variantNodes layerNodes screenNodes = filter (keepVariant layerNodes) screenNodes"

definition placeVariants :: "layerNodes \<Rightarrow> node \<Rightarrow> node list \<Rightarrow> node \<times> nat \<Rightarrow> node \<times> nat" where
  "placeVariants layerNodes root vs st =
     (case layerNodes ''variants'' of
        Some d \<Rightarrow> replaceDirective (Some d) vs st
      | None \<Rightarrow>
          if length vs > 0 then
            (updateNode (nid root) (appendNodes (cloneNodes (snd st) vs (source root))) (fst st),
             Suc (snd st))
          else st)"

definition hasUtilityVariants :: "node list \<Rightarrow> bool" where
  "hasUtilityVariants vs = list_ex (\<lambda>node. parentLayer node = Some ''utilities'') vs"

definition utilityWarning :: "layerNodes \<Rightarrow> stylesheet \<Rightarrow> node list \<Rightarrow> string list" where
  "utilityWarning layerNodes sheet vs =
     (if layerNodes ''utilities'' \<noteq> None \<and> length (utilities sheet) = 0 \<and> \<not> hasUtilityVariants vs
      then [''content-problems''] else [])"

text \<open>The last walk removes the at-rules \<open>layer\<close> of a recognized name under the root.\<close>

definition isLayerMarker :: "node \<Rightarrow> bool" where
  "isLayerMarker rule = (ntype rule = AtRule \<and> name rule = ''layer'' \<and> params rule \<in> set layerKeys)"

fun removeLayers :: "node \<Rightarrow> node" where
  "removeLayers (Node i t n p s pl cs) =
     Node i t n p s pl (map removeLayers (filter (\<lambda>c. \<not> isLayerMarker c) cs))"

text \<open>
  The part of a pass after the generation of the rules, which does not throw: the
  directives are replaced, the variants placed, the warning logged, the changed content
  reset, and the leftover at-rules \<open>layer\<close> removed under the root.
\<close>

definition finishPass :: "layerNodes \<Rightarrow> node \<Rightarrow> node \<Rightarrow> world \<Rightarrow> node \<times> world" where
  "finishPass layerNodes root tree w =
     (let sheet = cachedStylesheet (the_context w);
          st1 = replaceDirective (layerNodes ''base'') (base sheet @ defaults sheet) (tree, clones w);
          st2 = replaceDirective (layerNodes ''components'') (components sheet) st1;
          st3 = replaceDirective (layerNodes ''utilities'') (utilities sheet) st2;
          vs = variantNodes layerNodes (variants sheet);
          st4 = placeVariants layerNodes root vs st3
      in (updateNode (nid root) removeLayers (fst st4),
          w\<lparr>the_context := (the_context w)\<lparr>changedContent := []\<rparr>,
            warnings := warnings w @ utilityWarning layerNodes sheet vs,
            clones := snd st4\<rparr>))"

text \<open>
  One pass of the expander on a tree, which is a root or a document. The result is the
  error that aborted the pass, if any, and the tree and the state as the pass, or the
  error, leaves them.
\<close>

definition expandTailwindAtRules ::
  "collaborators \<Rightarrow> node \<Rightarrow> world \<Rightarrow> error option \<times> node \<times> world" where
  "expandTailwindAtRules env tree w =
     (let layerNodes = scanLayerNodes tree in
      if noLayerNodes layerNodes then (None, tree, w)
      else
        let found = (if ntype tree = Document then findRootInDocument tree layerNodes
                     else (tree, []));
            root = fst found;
            w1 = w\<lparr>warnings := warnings w @ snd found\<rparr>;
            read = readChangedContent env w1;
            col = snd read;
            w2 = w1\<lparr>caches := extractorCache col, calls := extractorCalls col\<rparr>
        in case fst read of
             Some e \<Rightarrow> (Some e, tree, w2)
           | None \<Rightarrow>
               (let built = generateAndBuild env (candidates col) (the_context w2);
                    w3 = w2\<lparr>the_context := snd built,
                            generated := generated w2 @ [candidates col]\<rparr>
                in case fst built of
                     Some e \<Rightarrow> (Some e, tree, w3)
                   | None \<Rightarrow> (None, finishPass layerNodes root tree w3)))"

subsection \<open>Notions used to state the properties of a pass\<close>

text \<open>A directive \<open>@tailwind\<close> of a recognized layer name, and one of the layer \<open>L\<close>.\<close>

definition isDirective :: "node \<Rightarrow> bool" where
  "isDirective n = (ntype n = AtRule \<and> name n = ''tailwind'' \<and> params n \<in> set layerKeys)"

definition directivesOf :: "string \<Rightarrow> node \<Rightarrow> node list" where
  "directivesOf L tree = filter (\<lambda>n. isDirective n \<and> params n = L) (walk tree)"

text \<open>
  The stages of a pass that found a Layer Node: the root found, the collector after the
  changed content was read, the context after the rules were generated and the stylesheet
  built, and the state before the part that rewrites the tree.
\<close>

definition rootFound :: "node \<Rightarrow> node \<times> string list" where
  "rootFound tree =
     (if ntype tree = Document then findRootInDocument tree (scanLayerNodes tree)
      else (tree, []))"

definition collected :: "collaborators \<Rightarrow> world \<Rightarrow> collector" where
  "collected env w = snd (readChangedContent env w)"

definition afterRead :: "collaborators \<Rightarrow> node \<Rightarrow> world \<Rightarrow> world" where
  "afterRead env tree w =
     w\<lparr>warnings := warnings w @ snd (rootFound tree),
       caches := extractorCache (collected env w),
       calls := extractorCalls (collected env w)\<rparr>"

definition built :: "collaborators \<Rightarrow> world \<Rightarrow> error option \<times> build_context" where
  "built env w = generateAndBuild env (candidates (collected env w)) (the_context w)"

definition afterBuild :: "collaborators \<Rightarrow> node \<Rightarrow> world \<Rightarrow> world" where
  "afterBuild env tree w =
     (afterRead env tree w)
       \<lparr>the_context := snd (built env w),
        generated := generated w @ [candidates (collected env w)]\<rparr>"

text \<open>Whether a pass completes, and the tree and the state after it.\<close>

definition completes :: "collaborators \<Rightarrow> node \<Rightarrow> world \<Rightarrow> bool" where
  "completes env tree w = (fst (expandTailwindAtRules env tree w) = None)"

definition treeAfter :: "collaborators \<Rightarrow> node \<Rightarrow> world \<Rightarrow> node" where
  "treeAfter env tree w = fst (snd (expandTailwindAtRules env tree w))"

definition worldAfter :: "collaborators \<Rightarrow> node \<Rightarrow> world \<Rightarrow> world" where
  "worldAfter env tree w = snd (snd (expandTailwindAtRules env tree w))"

definition contextAfter :: "collaborators \<Rightarrow> node \<Rightarrow> world \<Rightarrow> build_context" where
  "contextAfter env tree w = the_context (worldAfter env tree w)"

text \<open>The warnings that a pass logs.\<close>

definition emitted :: "collaborators \<Rightarrow> node \<Rightarrow> world \<Rightarrow> string list" where
  "emitted env tree w = drop (length (warnings w)) (warnings (worldAfter env tree w))"



subsection \<open>The candidate collector, in the words of the specification\<close>

text \<open>
  The lines that a call has to look at: the distinct trimmed lines of the text, in the
  order of their first occurrence, that were not seen before the call.
\<close>

definition unseenLines :: "string \<Rightarrow> string js_set \<Rightarrow> string list" where
  "unseenLines text seenBefore =
     filter (\<lambda>line. line \<notin> set seenBefore) (new_Set (map trim (split_nl text)))"

text \<open>The state with an extraction cache for the extractor, an empty one if it had none.\<close>

definition withCache :: "extractor \<Rightarrow> collector \<Rightarrow> collector" where
  "withCache ex st =
     (if extractorCache st (ex_id ex) = None
      then st\<lparr>extractorCache := (extractorCache st)(ex_id ex \<mapsto> [])\<rparr>
      else st)"

text \<open>
  What is done with an unseen line: it is marked as seen; on a hit of the extraction cache
  the cached set is united into the candidates; on a miss the extractor is run, and when
  it returns its matches, the token \<open>!*\<close> is discarded, the matches are made a set, and
  the set is stored in the cache and united into the candidates.
\<close>

definition visitLine :: "extractor \<Rightarrow> string \<Rightarrow> collector \<Rightarrow> error option \<times> collector" where
  "visitLine ex line st =
     (let cache = cache_of st ex;
          st1 = st\<lparr>seen := seen st @ [line]\<rparr>
      in case lru_get cache line of
           Some cached \<Rightarrow>
             (None,
              st1\<lparr>candidates := set_add_all cached (candidates st),
                  extractorCache := (extractorCache st)(ex_id ex \<mapsto> lru_touch cache line)\<rparr>)
         | None \<Rightarrow>
             (case ex_run ex line of
                Inl e \<Rightarrow>
                  (Some e, st1\<lparr>extractorCalls := extractorCalls st @ [(ex_id ex, line)]\<rparr>)
              | Inr matches \<Rightarrow>
                  (let found = new_Set (filter (\<lambda>m. m \<noteq> ''!*'') matches) in
                   (None,
                    st1\<lparr>candidates := set_add_all found (candidates st),
                        extractorCache :=
                          (extractorCache st)(ex_id ex \<mapsto> lru_set maxSize cache line found),
                        extractorCalls := extractorCalls st @ [(ex_id ex, line)]\<rparr>))))"

subsection \<open>The reading of the changed content, in the words of the specification\<close>






text \<open>The candidates that the extraction caches hold, and those that a collector knows.\<close>

definition cachedCandidates :: "(nat \<rightharpoonup> lru) \<Rightarrow> string set" where
  "cachedCandidates cs = {m. \<exists>i c line ms. cs i = Some c \<and> (line, ms) \<in> set c \<and> m \<in> set ms}"

definition known :: "collector \<Rightarrow> string set" where
  "known st = set (candidates st) \<union> cachedCandidates (extractorCache st)"

section \<open>Example inputs\<close>

definition rule_node :: "nat \<Rightarrow> string option \<Rightarrow> node" where
  "rule_node n tag = Node (Orig n) Rule [] [] None tag []"

definition ex_order :: layerOrder where
  "ex_order =
     \<lparr>order_base = 1, order_defaults = 2, order_components = 4, order_utilities = 8,
      order_user = 16\<rparr>"

definition ex_context :: build_context where
  "ex_context =
     \<lparr>changedContent = [], tailwindConfig = \<lparr>content_extract = Map.empty, content_transform = Map.empty\<rparr>,
      classCache = [], ruleCache = [], stylesheetCache = None, minimumScreen = 64,
      layerOrder = ex_order\<rparr>"

definition ex_rules :: "entry list" where
  "ex_rules =
     [(9, rule_node 1 None), (64, rule_node 2 None), (32, rule_node 3 None),
      (3, rule_node 4 None), (8, rule_node 5 None)]"

definition at_rule :: "nat \<Rightarrow> string \<Rightarrow> string \<Rightarrow> node list \<Rightarrow> node" where
  "at_rule n nm ps cs = Node (Orig n) AtRule nm ps None None cs"

definition root_node :: "nat \<Rightarrow> node list \<Rightarrow> node" where
  "root_node n cs = Node (Orig n) Root [] [] None None cs"


text \<open>An extractor that yields the whole line and the token \<open>!*\<close>, and one that yields nothing.\<close>

definition ex_line_extractor :: extractor where
  "ex_line_extractor = \<lparr>ex_id = 0, ex_run = (\<lambda>line. Inr [line, ''!*'', line])\<rparr>"

definition ex_null_extractor :: extractor where
  "ex_null_extractor = \<lparr>ex_id = 1, ex_run = (\<lambda>line. Inr [])\<rparr>"

text \<open>
  Members that a plain object inherits. As an extractor, \<open>Object\<close> returns an object
  without \<open>filter\<close>, and \<open>Object.prototype.valueOf\<close> throws; as a transformer, \<open>Object\<close>
  returns the text as an object, and \<open>Object.prototype.valueOf\<close> throws.
\<close>

definition ex_inherited_extractor :: "string \<rightharpoonup> extractor" where
  "ex_inherited_extractor =
     [''constructor'' \<mapsto> \<lparr>ex_id = 100, ex_run = (\<lambda>line. Inl TypeError)\<rparr>,
      ''valueOf'' \<mapsto> \<lparr>ex_id = 101, ex_run = (\<lambda>line. Inl TypeError)\<rparr>]"

definition ex_inherited_transformer :: "string \<rightharpoonup> transformer" where
  "ex_inherited_transformer =
     [''constructor'' \<mapsto> (\<lambda>content. Inr (Text content)),
      ''valueOf'' \<mapsto> (\<lambda>content. Inl TypeError)]"

text \<open>
  A rule generator that knows one utility and one of its variants, and adds the candidates
  it has not met before to the class cache.
\<close>

definition ex_rules_of :: "string \<Rightarrow> cached_rule list" where
  "ex_rules_of c =
     (if c = ''p-4'' then [(1, 8, rule_node 10 None)]
      else if c = ''md:p-4'' then [(2, 72, rule_node 11 (Some ''utilities''))]
      else [])"

definition ex_generate ::
  "string js_set \<Rightarrow> build_context \<Rightarrow> (error + cached_rule list) \<times> (string \<times> entry list) list" where
  "ex_generate cands context =
     (Inr (concat (map ex_rules_of cands)),
      classCache context @
        map (\<lambda>c. (c, map snd (ex_rules_of c)))
          (filter (\<lambda>c. c \<notin> fst ` set (classCache context)) cands))"

definition ex_env :: collaborators where
  "ex_env =
     \<lparr>defaultExtractor = ex_line_extractor, generateRules = ex_generate,
      inheritedExtractor = ex_inherited_extractor,
      inheritedTransformer = ex_inherited_transformer\<rparr>"

definition ex_world :: "(string \<times> string) list \<Rightarrow> world" where
  "ex_world changed =
     \<lparr>the_context = ex_context\<lparr>changedContent := changed\<rparr>, caches = Map.empty, warnings = [],
      clones = 0, calls = [], generated = []\<rparr>"

text \<open>A root without directives, and one with the directives of base and utilities.\<close>

definition ex_plain_root :: node where
  "ex_plain_root = root_node 100 [at_rule 101 ''media'' ''print'' [rule_node 102 None]]"

definition ex_root :: node where
  "ex_root =
     root_node 100 [at_rule 101 ''tailwind'' ''base'' [], at_rule 102 ''tailwind'' ''utilities'' []]"

definition ex_changed :: "(string \<times> string) list" where
  "ex_changed = [(''p-4'', ''html'')]"

text \<open>Changed content whose extension names a member that every plain object inherits.\<close>

definition ex_changed_constructor :: "(string \<times> string) list" where
  "ex_changed_constructor = [(''p-4'', ''constructor'')]"

text \<open>
  Changed content without a known class, and with the variant only; a root with the
  directive of base only; a state whose stylesheet cache is built and whose class cache
  knows the candidates already.
\<close>

definition ex_changed_none :: "(string \<times> string) list" where
  "ex_changed_none = [(''foo'', ''html'')]"

definition ex_changed_variant :: "(string \<times> string) list" where
  "ex_changed_variant = [(''md:p-4'', ''html'')]"


definition ex_world_built :: world where
  "ex_world_built =
     \<lparr>the_context = ex_context
        \<lparr>changedContent := ex_changed,
         classCache := [(''*'', []), (''p-4'', [(8, rule_node 10 None)])],
         stylesheetCache := Some emptyStylesheet\<rparr>,
      caches = Map.empty, warnings = [], clones = 0, calls = [], generated = []\<rparr>"






text \<open>A text with a repeated line and a line seen before, and the sets of a call.\<close>

definition ex_text :: string where
  "ex_text = ''p-4\<newline>  p-4  \<newline>m-2''"

definition ex_collector :: collector where
  "ex_collector =
     \<lparr>candidates = [''*''], seen = [''m-2''], extractorCache = Map.empty, extractorCalls = []\<rparr>"





section \<open>Properties of the stylesheet assembler\<close>

lemma set_set_add [simp]: "set (set_add x s) = insert x (set s)"
  by (auto simp: set_add_def)

lemma set_set_add_all [simp]: "set (set_add_all xs s) = set xs \<union> set s"
  unfolding set_add_all_def by (induction xs arbitrary: s) auto

lemma set_new_Set [simp]: "set (new_Set xs) = set xs"
  by (simp add: new_Set_def)

text \<open>The comparator of \<open>buildStylesheet\<close> sorts by the key, ascending and stably.\<close>

lemma array_sort_sort_key:
  "array_sort (\<lambda>a z. bigSign (fst a - fst z)) xs = sort_key fst xs"
proof -
  have ins: "insert_sorted (\<lambda>a z. bigSign (fst a - fst z)) x ys = insort_key fst x ys"
    for x :: "int \<times> 'b" and ys
    by (induction ys) (auto simp: bigSign_def sgn_if)
  show ?thesis
    unfolding array_sort_def sort_key_def by (induction xs) (simp_all add: ins)
qed

lemma bucket_addRule:
  "bucket_of b (addRule ctx e s) =
     (if route ctx (fst e) = Some b then set_add (snd e) (bucket_of b s) else bucket_of b s)"
  by (cases b) (simp_all add: addRule_def route_def layer_bits_def bucket_of_def Let_def)

lemma bucket_fold_addRule:
  "bucket_of b (fold (addRule ctx) es s) =
     set_add_all (map snd (filter (\<lambda>e. route ctx (fst e) = Some b) es)) (bucket_of b s)"
proof (induction es arbitrary: s)
  case Nil
  show ?case by (simp add: set_add_all_def)
next
  case (Cons e es)
  show ?case by (simp add: Cons.IH bucket_addRule set_add_all_def)
qed

lemma bucket_empty: "bucket_of b emptyStylesheet = []"
  by (cases b) (simp_all add: bucket_of_def emptyStylesheet_def)

lemma buildStylesheet_buckets:
  "bucket_of b (buildStylesheet rules ctx) =
     new_Set (map snd (filter (\<lambda>e. route ctx (fst e) = Some b) (sort_key fst rules)))"
  by (simp add: buildStylesheet_def bucket_fold_addRule bucket_empty array_sort_sort_key
      new_Set_def)

lemma same_key:
  assumes d: "distinct (map snd rules)" and a: "(k, r) \<in> set rules"
    and b: "(k', r) \<in> set rules"
  shows "k' = k"
proof -
  from d have "inj_on snd (set rules)" by (simp add: distinct_map)
  from inj_onD [OF this _ b a] show ?thesis by simp
qed

text \<open>
  C1. For every rule list and context, each bucket of the assembled stylesheet holds, in
  ascending order of the sort keys, the rules of exactly those entries whose key the
  precedence \<open>route\<close> sends to that bucket (variants at or above the threshold, otherwise
  the first of base, defaults, components, utilities, user whose bit is set). The buckets
  are sets of rule nodes, so when no node stands in two entries, the rule of an entry is
  in the bucket of its key and in no other, and in no bucket when its key has no bucket.
\<close>

theorem buildStylesheet_partition:
  "bucket_of b (buildStylesheet rules ctx) =
     new_Set (map snd (filter (\<lambda>e. route ctx (fst e) = Some b) (sort_key fst rules)))
   \<and> (distinct (map snd rules) \<longrightarrow>
        (\<forall>k r. (k, r) \<in> set rules \<longrightarrow>
           (r \<in> set (bucket_of b (buildStylesheet rules ctx)) \<longleftrightarrow> route ctx k = Some b)))"
proof (intro conjI impI allI)
  show "bucket_of b (buildStylesheet rules ctx) =
     new_Set (map snd (filter (\<lambda>e. route ctx (fst e) = Some b) (sort_key fst rules)))"
    by (rule buildStylesheet_buckets)
next
  fix k r
  assume d: "distinct (map snd rules)" and m: "(k, r) \<in> set rules"
  have same: "k' = k" if "(k', r) \<in> set rules" for k'
    using same_key [OF d m that] .
  show "r \<in> set (bucket_of b (buildStylesheet rules ctx)) \<longleftrightarrow> route ctx k = Some b"
  proof
    assume "r \<in> set (bucket_of b (buildStylesheet rules ctx))"
    then obtain e where "e \<in> set rules" "snd e = r" "route ctx (fst e) = Some b"
      by (auto simp: buildStylesheet_buckets)
    then have "(fst e, r) \<in> set rules" "route ctx (fst e) = Some b"
      by auto
    then show "route ctx k = Some b"
      using same [of "fst e"] by simp
  next
    assume "route ctx k = Some b"
    then show "r \<in> set (bucket_of b (buildStylesheet rules ctx))"
      using m by (auto simp: buildStylesheet_buckets intro!: image_eqI [where x = "(k, r)"])
  qed
qed

theorem buildStylesheet_partition_witness:
  "bucket_of Base (buildStylesheet ex_rules ex_context) = [rule_node 4 None, rule_node 1 None]
   \<and> bucket_of Utilities (buildStylesheet ex_rules ex_context) = [rule_node 5 None]
   \<and> bucket_of Variants (buildStylesheet ex_rules ex_context) = [rule_node 2 None]
   \<and> distinct (map snd ex_rules)
   \<and> (32, rule_node 3 None) \<in> set ex_rules
   \<and> route ex_context 32 = None
   \<and> rule_node 3 None \<notin> set (bucket_of Base (buildStylesheet ex_rules ex_context))"
proof -
  have d: "distinct (map snd ex_rules)"
    by (simp add: ex_rules_def rule_node_def)
  have r: "route ex_context 32 = None" "route ex_context 3 = Some Base"
    "route ex_context 9 = Some Base" "route ex_context 8 = Some Utilities"
    "route ex_context 64 = Some Variants"
    by (simp_all add: route_def ex_context_def ex_order_def layer_bits_def)
  have s: "sort_key fst ex_rules =
    [(3, rule_node 4 None), (8, rule_node 5 None), (9, rule_node 1 None),
     (32, rule_node 3 None), (64, rule_node 2 None)]"
    by (simp add: ex_rules_def)
  have m: "(32, rule_node 3 None) \<in> set ex_rules"
    by (simp add: ex_rules_def)
  note t = buildStylesheet_partition [of _ ex_rules ex_context]
  have b: "bucket_of Base (buildStylesheet ex_rules ex_context) = [rule_node 4 None, rule_node 1 None]"
    using t [of Base] by (simp add: s r new_Set_def set_add_all_def set_add_def rule_node_def)
  have u: "bucket_of Utilities (buildStylesheet ex_rules ex_context) = [rule_node 5 None]"
    using t [of Utilities] by (simp add: s r new_Set_def set_add_all_def set_add_def rule_node_def)
  have v: "bucket_of Variants (buildStylesheet ex_rules ex_context) = [rule_node 2 None]"
    using t [of Variants] by (simp add: s r new_Set_def set_add_all_def set_add_def rule_node_def)
  have n: "rule_node 3 None \<notin> set (bucket_of Base (buildStylesheet ex_rules ex_context))"
    using t [of Base, THEN conjunct2, rule_format, OF d m] r(1) by simp
  show ?thesis using b u v d m r(1) n by simp
qed

section \<open>Properties of the scan\<close>

lemma recordLayerNode_alt:
  "recordLayerNode x m = (if isDirective x then m(params x \<mapsto> x) else m)"
  by (simp add: recordLayerNode_def isDirective_def)

lemma fold_recordLayerNode:
  "fold recordLayerNode ns m k =
     (if filter (\<lambda>n. isDirective n \<and> params n = k) ns = [] then m k
      else Some (last (filter (\<lambda>n. isDirective n \<and> params n = k) ns)))"
proof (induction ns arbitrary: m)
  case Nil
  show ?case by simp
next
  case (Cons x xs)
  have h: "fold recordLayerNode (x # xs) m k =
      (if filter (\<lambda>n. isDirective n \<and> params n = k) xs = [] then recordLayerNode x m k
       else Some (last (filter (\<lambda>n. isDirective n \<and> params n = k) xs)))"
    by (simp only: fold_simps o_apply Cons.IH)
  show ?case
    unfolding h by (simp add: recordLayerNode_alt)
qed

lemma scanLayerNodes_eq:
  "scanLayerNodes tree k =
     (if directivesOf k tree = [] then None else Some (last (directivesOf k tree)))"
  by (simp add: scanLayerNodes_def directivesOf_def fold_recordLayerNode)

lemma directivesOf_outside: "k \<notin> set layerKeys \<Longrightarrow> directivesOf k tree = []"
  by (auto simp: directivesOf_def isDirective_def filter_empty_conv)

lemma noLayerNodes_iff:
  "noLayerNodes (scanLayerNodes tree) \<longleftrightarrow> (\<forall>n \<in> set (walk tree). \<not> isDirective n)"
proof
  assume a: "noLayerNodes (scanLayerNodes tree)"
  show "\<forall>n \<in> set (walk tree). \<not> isDirective n"
  proof
    fix n assume n: "n \<in> set (walk tree)"
    show "\<not> isDirective n"
    proof
      assume d: "isDirective n"
      then have k: "params n \<in> set layerKeys" by (simp add: isDirective_def)
      from a k have "scanLayerNodes tree (params n) = None"
        by (simp add: noLayerNodes_def list_all_iff)
      then have "directivesOf (params n) tree = []"
        by (simp add: scanLayerNodes_eq split: if_splits)
      with n d show False by (auto simp: directivesOf_def filter_empty_conv)
    qed
  qed
next
  assume "\<forall>n \<in> set (walk tree). \<not> isDirective n"
  then have "directivesOf k tree = []" for k
    by (simp add: directivesOf_def filter_empty_conv)
  then show "noLayerNodes (scanLayerNodes tree)"
    by (simp add: noLayerNodes_def list_all_iff scanLayerNodes_eq)
qed


text \<open>
  C7. The scan finds no Layer Node exactly when the tree has no directive \<open>@tailwind\<close>
  of a recognized layer name; the pass then completes, returns the tree as it is and leaves
  the whole state as it is: the context and the caches are not touched, nothing is logged,
  and the rule generator is not called (its trace is unchanged).
\<close>

theorem bail_out_unchanged:
  "(noLayerNodes (scanLayerNodes tree) \<longleftrightarrow> (\<forall>n \<in> set (walk tree). \<not> isDirective n))
   \<and> (noLayerNodes (scanLayerNodes tree) \<longrightarrow>
        expandTailwindAtRules env tree w = (None, tree, w))"
  by (simp add: noLayerNodes_iff expandTailwindAtRules_def)

lemma ex_plain_root_no_directive: "\<forall>n \<in> set (walk ex_plain_root). \<not> isDirective n"
  by (simp add: ex_plain_root_def root_node_def at_rule_def rule_node_def isDirective_def)

lemma ex_root_directives: "\<not> noLayerNodes (scanLayerNodes ex_root)"
  by (simp add: noLayerNodes_iff ex_root_def root_node_def at_rule_def isDirective_def
      layerKeys_def)

theorem bail_out_unchanged_witness:
  "noLayerNodes (scanLayerNodes ex_plain_root)
   \<and> expandTailwindAtRules ex_env ex_plain_root (ex_world ex_changed)
       = (None, ex_plain_root, ex_world ex_changed)
   \<and> generated (worldAfter ex_env ex_plain_root (ex_world ex_changed)) = []"
proof -
  note t = bail_out_unchanged [of ex_plain_root ex_env "ex_world ex_changed"]
  from t ex_plain_root_no_directive have n: "noLayerNodes (scanLayerNodes ex_plain_root)"
    by blast
  with t have e: "expandTailwindAtRules ex_env ex_plain_root (ex_world ex_changed)
       = (None, ex_plain_root, ex_world ex_changed)"
    by blast
  show ?thesis using n e by (simp add: worldAfter_def ex_world_def)
qed

section \<open>Evaluation of the examples\<close>

lemmas ex_defs = ex_env_def ex_world_def ex_context_def ex_changed_def
  ex_changed_constructor_def ex_line_extractor_def ex_inherited_extractor_def
  ex_inherited_transformer_def ex_order_def ex_generate_def ex_rules_of_def rule_node_def
  root_node_def at_rule_def

lemmas read_defs = readChangedContent_def readContent_def getTransformer_def getExtractor_def
  property_def builtInTransformers_def builtInExtractors_def getClassCandidates_def
  processLine_def trim_def is_ws_def lru_has_def lru_get_def lru_set_def lru_touch_def
  maxSize_def set_add_def set_add_all_def new_Set_def lineMatchesSet_def cache_of_def Let_def

lemma ex_read:
  "readChangedContent ex_env (ex_world ex_changed) =
     (None, \<lparr>candidates = [''*'', ''p-4''], seen = [''p-4''],
             extractorCache = [0 \<mapsto> [(''p-4'', [''p-4''])]],
             extractorCalls = [(0, ''p-4'')]\<rparr>)"
  by (simp add: read_defs ex_defs)

lemma ex_read_constructor:
  "readChangedContent ex_env (ex_world ex_changed_constructor) =
     (Some TypeError, \<lparr>candidates = [''*''], seen = [''p-4''],
             extractorCache = [100 \<mapsto> []],
             extractorCalls = [(100, ''p-4'')]\<rparr>)"
  by (simp add: read_defs ex_defs)

lemma ex_world_fields:
  "warnings (ex_world c) = []" "caches (ex_world c) = Map.empty" "calls (ex_world c) = []"
  "generated (ex_world c) = []" "clones (ex_world c) = 0"
  "the_context (ex_world c) = ex_context\<lparr>changedContent := c\<rparr>"
  by (simp_all add: ex_world_def)

lemma ex_generate_fst: "fst (generateRules ex_env cands context) = Inr (concat (map ex_rules_of cands))"
  by (simp add: ex_env_def ex_generate_def)

lemmas build_defs = generateAndBuild_def buildStep_def
  buildStylesheet_def array_sort_def addRule_def bigSign_def emptyStylesheet_def cache_add_def
  cachedStylesheet_def set_add_def Let_def

lemma ex_read_none:
  "readChangedContent ex_env (ex_world ex_changed_none) =
     (None, \<lparr>candidates = [''*'', ''foo''], seen = [''foo''],
             extractorCache = [0 \<mapsto> [(''foo'', [''foo''])]],
             extractorCalls = [(0, ''foo'')]\<rparr>)"
  by (simp add: read_defs ex_defs ex_changed_none_def)

lemma ex_read_variant:
  "readChangedContent ex_env (ex_world ex_changed_variant) =
     (None, \<lparr>candidates = [''*'', ''md:p-4''], seen = [''md:p-4''],
             extractorCache = [0 \<mapsto> [(''md:p-4'', [''md:p-4''])]],
             extractorCalls = [(0, ''md:p-4'')]\<rparr>)"
  by (simp add: read_defs ex_defs ex_changed_variant_def)


lemma ex_built:
  "fst (built ex_env (ex_world ex_changed)) = None"
  "ruleCache (snd (built ex_env (ex_world ex_changed))) = [(1, 8, rule_node 10 None)]"
  "cachedStylesheet (snd (built ex_env (ex_world ex_changed))) =
     emptyStylesheet\<lparr>utilities := [rule_node 10 None]\<rparr>"
  by (simp_all only: built_def collected_def ex_read snd_conv fst_conv collector.simps)
     (simp_all add: build_defs ex_defs ex_world_built_def)

lemma ex_built_none:
  "fst (built ex_env (ex_world ex_changed_none)) = None"
  "cachedStylesheet (snd (built ex_env (ex_world ex_changed_none))) = emptyStylesheet"
  by (simp_all only: built_def collected_def ex_read_none snd_conv fst_conv collector.simps)
     (simp_all add: build_defs ex_defs ex_world_built_def)

lemma ex_built_variant:
  "fst (built ex_env (ex_world ex_changed_variant)) = None"
  "cachedStylesheet (snd (built ex_env (ex_world ex_changed_variant))) =
     emptyStylesheet\<lparr>variants := [rule_node 11 (Some ''utilities'')]\<rparr>"
  by (simp_all only: built_def collected_def ex_read_variant snd_conv fst_conv collector.simps)
     (simp_all add: build_defs ex_defs ex_world_built_def)


section \<open>Properties of a pass\<close>

lemma readChangedContent_warnings:
  "readChangedContent env (w\<lparr>warnings := x\<rparr>) = readChangedContent env w"
  by (simp add: readChangedContent_def)

text \<open>A pass that found a Layer Node, by its stages.\<close>

lemma pass_stages:
  assumes "\<not> noLayerNodes (scanLayerNodes tree)"
  shows "expandTailwindAtRules env tree w =
     (case fst (readChangedContent env w) of
        Some e \<Rightarrow> (Some e, tree, afterRead env tree w)
      | None \<Rightarrow>
          (case fst (built env w) of
             Some e \<Rightarrow> (Some e, tree, afterBuild env tree w)
           | None \<Rightarrow>
               (None, finishPass (scanLayerNodes tree) (fst (rootFound tree)) tree
                        (afterBuild env tree w))))"
proof -
  have "expandTailwindAtRules env tree w =
     (let found = rootFound tree;
          w1 = w\<lparr>warnings := warnings w @ snd found\<rparr>;
          read = readChangedContent env w1;
          col = snd read;
          w2 = w1\<lparr>caches := extractorCache col, calls := extractorCalls col\<rparr>
      in case fst read of
           Some e \<Rightarrow> (Some e, tree, w2)
         | None \<Rightarrow>
             (let built = generateAndBuild env (candidates col) (the_context w2);
                  w3 = w2\<lparr>the_context := snd built,
                          generated := generated w2 @ [candidates col]\<rparr>
              in case fst built of
                   Some e \<Rightarrow> (Some e, tree, w3)
                 | None \<Rightarrow> (None, finishPass (scanLayerNodes tree) (fst found) tree w3)))"
    unfolding expandTailwindAtRules_def rootFound_def using assms by (simp only: Let_def if_False)
  then show ?thesis
    by (simp add: Let_def readChangedContent_warnings collected_def afterRead_def built_def
        afterBuild_def cong: option.case_cong)
qed

lemma completes_iff:
  assumes "\<not> noLayerNodes (scanLayerNodes tree)"
  shows "completes env tree w \<longleftrightarrow>
     fst (readChangedContent env w) = None \<and> fst (built env w) = None"
  by (simp add: completes_def pass_stages [OF assms] split: option.splits)

lemma completed_pass:
  assumes "\<not> noLayerNodes (scanLayerNodes tree)" and "completes env tree w"
  shows "expandTailwindAtRules env tree w =
     (None, finishPass (scanLayerNodes tree) (fst (rootFound tree)) tree (afterBuild env tree w))"
  using assms(2) by (simp add: completes_iff [OF assms(1)] pass_stages [OF assms(1)])

lemma bail_out_pass:
  "noLayerNodes (scanLayerNodes tree) \<Longrightarrow> expandTailwindAtRules env tree w = (None, tree, w)"
  by (simp add: expandTailwindAtRules_def)

lemma context_after_bail_out:
  "noLayerNodes (scanLayerNodes tree) \<Longrightarrow> contextAfter env tree w = the_context w"
  by (simp add: contextAfter_def worldAfter_def bail_out_pass)

lemma changedContent_finishPass:
  "changedContent (the_context (snd (finishPass layerNodes root tree w))) = []"
  by (simp add: finishPass_def Let_def)

lemma ex_completes: "completes ex_env ex_root (ex_world ex_changed)"
  by (simp add: completes_iff [OF ex_root_directives] ex_read built_def collected_def
      generateAndBuild_def ex_generate_fst Let_def)

lemma ex_aborts:
  "fst (expandTailwindAtRules ex_env ex_root (ex_world ex_changed_constructor)) = Some TypeError"
  by (simp add: pass_stages [OF ex_root_directives] ex_read_constructor)

text \<open>
  C8, as the code has it. A pass that finds no Layer Node completes and leaves the list of
  changed content as it was, since it returns before the reset. After a pass that found a
  Layer Node and completes (no collaborator throws), the list is empty.
\<close>

theorem changedContent_after_pass:
  "(noLayerNodes (scanLayerNodes tree) \<longrightarrow>
      completes env tree w
      \<and> changedContent (contextAfter env tree w) = changedContent (the_context w))
   \<and> (\<not> noLayerNodes (scanLayerNodes tree) \<and> completes env tree w \<longrightarrow>
        changedContent (contextAfter env tree w) = [])"
proof (intro conjI impI)
  assume n: "noLayerNodes (scanLayerNodes tree)"
  then show "completes env tree w"
    by (simp add: completes_def expandTailwindAtRules_def)
  from n show "changedContent (contextAfter env tree w) = changedContent (the_context w)"
    by (simp add: context_after_bail_out)
next
  assume "\<not> noLayerNodes (scanLayerNodes tree) \<and> completes env tree w"
  then have "expandTailwindAtRules env tree w =
     (None, finishPass (scanLayerNodes tree) (fst (rootFound tree)) tree (afterBuild env tree w))"
    using completed_pass by blast
  then show "changedContent (contextAfter env tree w) = []"
    by (simp add: contextAfter_def worldAfter_def changedContent_finishPass)
qed

theorem changedContent_after_pass_witness:
  "\<not> noLayerNodes (scanLayerNodes ex_root)
   \<and> completes ex_env ex_root (ex_world ex_changed)
   \<and> changedContent (the_context (ex_world ex_changed)) = [(''p-4'', ''html'')]
   \<and> changedContent (contextAfter ex_env ex_root (ex_world ex_changed)) = []
   \<and> noLayerNodes (scanLayerNodes ex_plain_root)
   \<and> completes ex_env ex_plain_root (ex_world ex_changed)
   \<and> changedContent (contextAfter ex_env ex_plain_root (ex_world ex_changed))
       = [(''p-4'', ''html'')]"
proof -
  have n: "noLayerNodes (scanLayerNodes ex_plain_root)"
    using ex_plain_root_no_directive by (simp add: noLayerNodes_iff)
  have a: "changedContent (contextAfter ex_env ex_root (ex_world ex_changed)) = []"
    using changedContent_after_pass [of ex_root ex_env "ex_world ex_changed"]
      ex_root_directives ex_completes by blast
  have b: "completes ex_env ex_plain_root (ex_world ex_changed)
      \<and> changedContent (contextAfter ex_env ex_plain_root (ex_world ex_changed))
          = changedContent (the_context (ex_world ex_changed))"
    using changedContent_after_pass [of ex_plain_root ex_env "ex_world ex_changed"] n by blast
  have c: "changedContent (the_context (ex_world ex_changed)) = [(''p-4'', ''html'')]"
    by (simp add: ex_world_def ex_changed_def)
  show ?thesis
    using ex_root_directives ex_completes a b c n by simp
qed

text \<open>
  C8, as it is stated, fails: a pass over a root without directives completes and leaves
  the changed content in the list.
\<close>

theorem changedContent_not_reset_counterexample:
  "completes ex_env ex_plain_root (ex_world ex_changed)
   \<and> changedContent (contextAfter ex_env ex_plain_root (ex_world ex_changed))
       = [(''p-4'', ''html'')]"
proof -
  have "noLayerNodes (scanLayerNodes ex_plain_root)"
    using ex_plain_root_no_directive by (simp add: noLayerNodes_iff)
  then show ?thesis
    by (simp add: completes_def contextAfter_def worldAfter_def expandTailwindAtRules_def
        ex_world_def ex_changed_def)
qed

text \<open>
  The list is not reset either when an error aborts the pass: with the extension
  \<open>constructor\<close> the extractor is the member \<open>Object\<close> that the objects of extractors
  inherit, its result has no \<open>filter\<close>, and the \<open>TypeError\<close> ends the pass before the reset.
\<close>

lemma changedContent_kept_by_aborted_pass:
  "\<not> noLayerNodes (scanLayerNodes ex_root)
   \<and> fst (expandTailwindAtRules ex_env ex_root (ex_world ex_changed_constructor)) = Some TypeError
   \<and> changedContent (contextAfter ex_env ex_root (ex_world ex_changed_constructor))
       = [(''p-4'', ''constructor'')]"
proof -
  have "contextAfter ex_env ex_root (ex_world ex_changed_constructor)
      = the_context (ex_world ex_changed_constructor)"
    by (simp add: contextAfter_def worldAfter_def pass_stages [OF ex_root_directives]
        ex_read_constructor afterRead_def)
  then have "changedContent (contextAfter ex_env ex_root (ex_world ex_changed_constructor))
      = [(''p-4'', ''constructor'')]"
    by (simp add: ex_world_fields ex_changed_constructor_def)
  then show ?thesis
    using ex_root_directives ex_aborts by simp
qed



lemma context_after_completed:
  assumes "\<not> noLayerNodes (scanLayerNodes tree)" and "completes env tree w"
  shows "contextAfter env tree w = (snd (built env w))\<lparr>changedContent := []\<rparr>"
  by (simp add: contextAfter_def worldAfter_def completed_pass [OF assms] finishPass_def
      Let_def afterBuild_def)

lemma warnings_after_completed:
  assumes "\<not> noLayerNodes (scanLayerNodes tree)" and "completes env tree w"
  shows "emitted env tree w =
     snd (rootFound tree)
     @ utilityWarning (scanLayerNodes tree) (cachedStylesheet (contextAfter env tree w))
         (variantNodes (scanLayerNodes tree)
            (variants (cachedStylesheet (contextAfter env tree w))))"
  by (simp add: emitted_def context_after_completed [OF assms] worldAfter_def
      completed_pass [OF assms] finishPass_def Let_def afterBuild_def afterRead_def
      cachedStylesheet_def)

lemma rootFound_warnings: "count_list (snd (rootFound tree)) ''content-problems'' = 0"
  by (simp add: rootFound_def findRootInDocument_def Let_def)

lemma noLayerNodes_utilities:
  "noLayerNodes ln \<Longrightarrow> ln ''utilities'' = None"
  by (simp add: noLayerNodes_def layerKeys_def)

lemma cachedStylesheet_after_completed:
  assumes "\<not> noLayerNodes (scanLayerNodes tree)" and "completes env tree w"
  shows "cachedStylesheet (contextAfter env tree w) = cachedStylesheet (snd (built env w))"
  by (simp add: context_after_completed [OF assms] cachedStylesheet_def)

lemma ex_root_utilities: "scanLayerNodes ex_root ''utilities'' \<noteq> None"
  by (simp add: scanLayerNodes_eq directivesOf_def ex_root_def root_node_def at_rule_def
      isDirective_def layerKeys_def)


lemma ex_completes_none: "completes ex_env ex_root (ex_world ex_changed_none)"
  by (simp add: completes_iff [OF ex_root_directives] ex_read_none ex_built_none)

lemma ex_completes_variant: "completes ex_env ex_root (ex_world ex_changed_variant)"
  by (simp add: completes_iff [OF ex_root_directives] ex_read_variant ex_built_variant)



text \<open>
  C9. For every build pass that completes, the warning \<open>content-problems\<close> is logged, once,
  if and only if a Layer Node of utilities was found, the utilities bucket of the stylesheet
  cache is empty, and none of the variant rules that the filter keeps is tagged with the
  parent layer utilities.
\<close>

theorem utility_warning_iff:
  assumes "completes env tree w"
  shows "count_list (emitted env tree w) ''content-problems'' =
     (if scanLayerNodes tree ''utilities'' \<noteq> None
         \<and> utilities (cachedStylesheet (contextAfter env tree w)) = []
         \<and> \<not> list_ex (\<lambda>n. parentLayer n = Some ''utilities'')
               (variantNodes (scanLayerNodes tree)
                  (variants (cachedStylesheet (contextAfter env tree w))))
      then 1 else 0)"
proof (cases "noLayerNodes (scanLayerNodes tree)")
  case True
  then show ?thesis
    by (simp add: emitted_def worldAfter_def bail_out_pass noLayerNodes_utilities)
next
  case False
  show ?thesis
    by (simp add: warnings_after_completed [OF False assms] rootFound_warnings
        utilityWarning_def hasUtilityVariants_def)
qed


theorem utility_warning_iff_witness:
  "completes ex_env ex_root (ex_world ex_changed_none)
   \<and> count_list (emitted ex_env ex_root (ex_world ex_changed_none)) ''content-problems'' = 1
   \<and> completes ex_env ex_root (ex_world ex_changed_variant)
   \<and> count_list (emitted ex_env ex_root (ex_world ex_changed_variant)) ''content-problems'' = 0
   \<and> completes ex_env ex_root (ex_world ex_changed)
   \<and> count_list (emitted ex_env ex_root (ex_world ex_changed)) ''content-problems'' = 0"
proof -
  have a: "count_list (emitted ex_env ex_root (ex_world ex_changed_none)) ''content-problems'' = 1"
    using utility_warning_iff [OF ex_completes_none] ex_root_utilities
    by (simp add: cachedStylesheet_after_completed [OF ex_root_directives ex_completes_none]
        ex_built_none emptyStylesheet_def variantNodes_def)
  have b: "count_list (emitted ex_env ex_root (ex_world ex_changed_variant)) ''content-problems'' = 0"
    using utility_warning_iff [OF ex_completes_variant] ex_root_utilities
    by (simp add: cachedStylesheet_after_completed [OF ex_root_directives ex_completes_variant]
        ex_built_variant emptyStylesheet_def variantNodes_def keepVariant_def rule_node_def)
  have c: "count_list (emitted ex_env ex_root (ex_world ex_changed)) ''content-problems'' = 0"
    using utility_warning_iff [OF ex_completes] ex_root_utilities
    by (simp add: cachedStylesheet_after_completed [OF ex_root_directives ex_completes]
        ex_built emptyStylesheet_def)
  show ?thesis
    using a b c ex_completes_none ex_completes_variant ex_completes by simp
qed








section \<open>The root of a document\<close>












section \<open>Properties of the candidate collector\<close>

lemma set_add_all_filter:
  "set_add_all xs acc = acc @ filter (\<lambda>y. y \<notin> set acc) (new_Set xs)"
proof (induction xs arbitrary: acc)
  case Nil
  show ?case by (simp add: set_add_all_def new_Set_def)
next
  case (Cons x xs)
  have n: "new_Set (x # xs) = x # filter (\<lambda>y. y \<noteq> x) (new_Set xs)"
    using Cons.IH [of "[x]"] by (simp add: new_Set_def set_add_all_def set_add_def)
  have s: "set_add_all (x # xs) acc = set_add_all xs (set_add x acc)"
    by (simp add: set_add_all_def)
  show ?case
  proof (cases "x \<in> set acc")
    case True
    have "filter (\<lambda>y. y \<notin> set acc) (filter (\<lambda>y. y \<noteq> x) (new_Set xs))
        = filter (\<lambda>y. y \<notin> set acc) (new_Set xs)"
      using True by (auto intro: filter_cong)
    with True show ?thesis
      by (simp add: s n set_add_def Cons.IH [of acc])
  next
    case False
    have "filter (\<lambda>y. y \<notin> set (acc @ [x])) (new_Set xs)
        = filter (\<lambda>y. y \<notin> set acc) (filter (\<lambda>y. y \<noteq> x) (new_Set xs))"
      by (auto intro: filter_cong)
    with False show ?thesis
      by (simp add: s n set_add_def Cons.IH [of "acc @ [x]"])
  qed
qed

lemma new_Set_Cons: "new_Set (x # xs) = x # filter (\<lambda>y. y \<noteq> x) (new_Set xs)"
  using set_add_all_filter [of xs "[x]"] by (simp add: new_Set_def set_add_all_def set_add_def)

lemma distinct_set_add_all: "distinct acc \<Longrightarrow> distinct (set_add_all xs acc)"
  unfolding set_add_all_def by (induction xs arbitrary: acc) (simp_all add: set_add_def)

lemma distinct_new_Set: "distinct (new_Set xs)"
  by (simp add: new_Set_def distinct_set_add_all)

lemma processLine_seen: "trim l \<in> set (seen st) \<Longrightarrow> processLine ex l st = (None, st)"
  by (simp add: processLine_def)

lemma processLine_visit:
  "trim l \<notin> set (seen st) \<Longrightarrow> processLine ex l st = visitLine ex (trim l) st"
  by (simp add: processLine_def visitLine_def Let_def set_add_def lru_has_def lru_get_def
      cache_of_def lineMatchesSet_def split: option.splits sum.splits)

lemma visitLine_seen:
  "visitLine ex line st = (None, st') \<Longrightarrow> seen st' = seen st @ [line]"
  by (auto simp: visitLine_def Let_def split: option.splits sum.splits)

lemma forEach_processLine:
  "forEach (processLine ex) ls st =
     forEach (visitLine ex) (filter (\<lambda>l. l \<notin> set (seen st)) (new_Set (map trim ls))) st"
proof (induction ls arbitrary: st)
  case Nil
  show ?case by (simp add: new_Set_def set_add_all_def)
next
  case (Cons l ls)
  let ?x = "trim l"
  show ?case
  proof (cases "?x \<in> set (seen st)")
    case True
    have "filter (\<lambda>l. l \<notin> set (seen st)) (filter (\<lambda>y. y \<noteq> ?x) (new_Set (map trim ls)))
        = filter (\<lambda>l. l \<notin> set (seen st)) (new_Set (map trim ls))"
      using True by (auto intro: filter_cong)
    with True show ?thesis
      by (simp add: processLine_seen new_Set_Cons Cons.IH)
  next
    case False
    obtain e st' where v: "visitLine ex ?x st = (e, st')"
      by (cases "visitLine ex ?x st")
    show ?thesis
    proof (cases e)
      case (Some err)
      with False v show ?thesis
        by (simp add: processLine_visit new_Set_Cons)
    next
      case None
      with v have s: "seen st' = seen st @ [?x]"
        by (simp add: visitLine_seen)
      have "filter (\<lambda>l. l \<notin> set (seen st')) (new_Set (map trim ls))
          = filter (\<lambda>l. l \<notin> set (seen st)) (filter (\<lambda>y. y \<noteq> ?x) (new_Set (map trim ls)))"
        by (auto simp: s intro: filter_cong)
      with False v None show ?thesis
        by (simp add: processLine_visit new_Set_Cons Cons.IH)
    qed
  qed
qed

lemma withCache_seen [simp]: "seen (withCache ex st) = seen st"
  by (simp add: withCache_def)

lemma withCache_calls [simp]: "extractorCalls (withCache ex st) = extractorCalls st"
  by (simp add: withCache_def)

lemma getClassCandidates_visits:
  "getClassCandidates (Text s) ex st =
     forEach (visitLine ex) (unseenLines s (seen st)) (withCache ex st)"
  using forEach_processLine [of ex "split_nl s" "withCache ex st"]
  by (simp add: getClassCandidates_def unseenLines_def withCache_def Let_def)

lemma visitLine_calls:
  "extractorCalls (snd (visitLine ex line st)) = extractorCalls st
   \<or> extractorCalls (snd (visitLine ex line st)) = extractorCalls st @ [(ex_id ex, line)]"
  by (simp add: visitLine_def Let_def split: option.splits sum.splits)

lemma forEach_visit_calls:
  "distinct xs \<Longrightarrow>
   \<exists>new. extractorCalls (snd (forEach (visitLine ex) xs st))
            = extractorCalls st @ map (Pair (ex_id ex)) new
        \<and> distinct new \<and> set new \<subseteq> set xs"
proof (induction xs arbitrary: st)
  case Nil
  show ?case by (intro exI [of _ "[]"]) simp
next
  case (Cons x xs)
  obtain e st' where v: "visitLine ex x st = (e, st')"
    by (cases "visitLine ex x st")
  have c: "extractorCalls st' = extractorCalls st
      \<or> extractorCalls st' = extractorCalls st @ [(ex_id ex, x)]"
    using visitLine_calls [of ex x st] v by simp
  then have "\<exists>first. extractorCalls st' = extractorCalls st @ map (Pair (ex_id ex)) first
      \<and> (first = [] \<or> first = [x])"
  proof
    assume "extractorCalls st' = extractorCalls st"
    then show ?thesis by (intro exI [of _ "[]"]) simp
  next
    assume "extractorCalls st' = extractorCalls st @ [(ex_id ex, x)]"
    then show ?thesis by (intro exI [of _ "[x]"]) simp
  qed
  then obtain first where f: "extractorCalls st' = extractorCalls st @ map (Pair (ex_id ex)) first"
    and fx: "first = [] \<or> first = [x]"
    by blast
  show ?case
  proof (cases e)
    case (Some err)
    with v f fx show ?thesis
      by (intro exI [of _ first]) auto
  next
    case None
    from Cons.prems have "distinct xs" by simp
    from Cons.IH [OF this, of st'] obtain new where
      n: "extractorCalls (snd (forEach (visitLine ex) xs st'))
            = extractorCalls st' @ map (Pair (ex_id ex)) new"
      and d: "distinct new" and sub: "set new \<subseteq> set xs"
      by blast
    from Cons.prems sub have "x \<notin> set new" by auto
    with v None n f fx d sub show ?thesis
      by (intro exI [of _ "first @ new"]) auto
  qed
qed

lemma distinct_unseenLines: "distinct (unseenLines s seenBefore)"
  by (simp add: unseenLines_def distinct_new_Set)

lemma set_unseenLines: "set (unseenLines s seenBefore) = trim ` set (split_nl s) - set seenBefore"
  by (auto simp: unseenLines_def)

lemma lru_get_set: "lru_get (lru_set maxSize c k v) k = Some v"
  by (simp add: lru_get_def lru_set_def maxSize_def)

text \<open>
  C3. A call of the candidate collector on a text looks at each distinct trimmed line that
  was not seen before, once, in the order of the first occurrences: the call is the
  visit of these lines, one after the other; a line equal to one seen already is skipped.
  The extractor calls made by the call are on distinct lines among them. A visited line
  with a cache hit unites the cached set into the candidates, without a call of the
  extractor; on a miss the extractor is run, and when it returns its matches, the set of
  the matches other than \<open>!*\<close> is stored in the extractor's cache under the line and
  united into the candidates. (When the extractor throws, the call ends with the error,
  the line marked as seen.)
\<close>

theorem getClassCandidates_lines:
  "distinct (unseenLines s (seen st))
   \<and> set (unseenLines s (seen st)) = trim ` set (split_nl s) - set (seen st)
   \<and> getClassCandidates (Text s) ex st =
       forEach (visitLine ex) (unseenLines s (seen st)) (withCache ex st)
   \<and> (\<exists>new. extractorCalls (snd (getClassCandidates (Text s) ex st))
                = extractorCalls st @ map (Pair (ex_id ex)) new
            \<and> distinct new \<and> set new \<subseteq> set (unseenLines s (seen st)))
   \<and> (\<forall>line c cached. lru_get (cache_of c ex) line = Some cached \<longrightarrow>
         fst (visitLine ex line c) = None
         \<and> set (candidates (snd (visitLine ex line c))) = set (candidates c) \<union> set cached
         \<and> extractorCalls (snd (visitLine ex line c)) = extractorCalls c)
   \<and> (\<forall>line c matches. lru_get (cache_of c ex) line = None \<and> ex_run ex line = Inr matches \<longrightarrow>
         fst (visitLine ex line c) = None
         \<and> extractorCalls (snd (visitLine ex line c)) = extractorCalls c @ [(ex_id ex, line)]
         \<and> (\<exists>found. distinct found \<and> set found = set matches - {''!*''}
               \<and> lru_get (cache_of (snd (visitLine ex line c)) ex) line = Some found
               \<and> set (candidates (snd (visitLine ex line c))) = set (candidates c) \<union> set found))
   \<and> (\<forall>line c e. lru_get (cache_of c ex) line = None \<and> ex_run ex line = Inl e \<longrightarrow>
         visitLine ex line c =
           (Some e, c\<lparr>seen := seen c @ [line],
                      extractorCalls := extractorCalls c @ [(ex_id ex, line)]\<rparr>))"
proof (intro conjI allI impI)
  show "distinct (unseenLines s (seen st))"
    by (rule distinct_unseenLines)
  show "set (unseenLines s (seen st)) = trim ` set (split_nl s) - set (seen st)"
    by (rule set_unseenLines)
  show "getClassCandidates (Text s) ex st =
       forEach (visitLine ex) (unseenLines s (seen st)) (withCache ex st)"
    by (rule getClassCandidates_visits)
  show "\<exists>new. extractorCalls (snd (getClassCandidates (Text s) ex st))
                = extractorCalls st @ map (Pair (ex_id ex)) new
            \<and> distinct new \<and> set new \<subseteq> set (unseenLines s (seen st))"
    using forEach_visit_calls [OF distinct_unseenLines, of ex s "seen st" "withCache ex st"]
    by (simp add: getClassCandidates_visits)
next
  fix line c cached
  assume h: "lru_get (cache_of c ex) line = Some cached"
  then show "fst (visitLine ex line c) = None"
    and "set (candidates (snd (visitLine ex line c))) = set (candidates c) \<union> set cached"
    and "extractorCalls (snd (visitLine ex line c)) = extractorCalls c"
    by (auto simp: visitLine_def Let_def)
next
  fix line c matches
  assume h: "lru_get (cache_of c ex) line = None \<and> ex_run ex line = Inr matches"
  let ?found = "new_Set (filter (\<lambda>m. m \<noteq> ''!*'') matches)"
  from h show "fst (visitLine ex line c) = None"
    and "extractorCalls (snd (visitLine ex line c)) = extractorCalls c @ [(ex_id ex, line)]"
    by (simp_all add: visitLine_def Let_def)
  have "distinct ?found" by (rule distinct_new_Set)
  moreover have "set ?found = set matches - {''!*''}" by auto
  moreover from h have "lru_get (cache_of (snd (visitLine ex line c)) ex) line = Some ?found"
    by (simp add: visitLine_def Let_def cache_of_def lru_get_set)
  moreover from h have "set (candidates (snd (visitLine ex line c))) = set (candidates c) \<union> set ?found"
    by (auto simp: visitLine_def Let_def)
  ultimately show "\<exists>found. distinct found \<and> set found = set matches - {''!*''}
               \<and> lru_get (cache_of (snd (visitLine ex line c)) ex) line = Some found
               \<and> set (candidates (snd (visitLine ex line c))) = set (candidates c) \<union> set found"
    by blast
next
  fix line c e
  assume "lru_get (cache_of c ex) line = None \<and> ex_run ex line = Inl e"
  then show "visitLine ex line c =
           (Some e, c\<lparr>seen := seen c @ [line],
                      extractorCalls := extractorCalls c @ [(ex_id ex, line)]\<rparr>)"
    by (simp add: visitLine_def Let_def)
qed

lemma ex_text_lines: "map trim (split_nl ex_text) = [''p-4'', ''p-4'', ''m-2'']"
  by (simp add: ex_text_def trim_def is_ws_def)

lemma ex_unseen: "unseenLines ex_text [''m-2''] = [''p-4'']"
  by (simp add: unseenLines_def ex_text_lines new_Set_def set_add_all_def set_add_def)

theorem getClassCandidates_lines_witness:
  "map trim (split_nl ex_text) = [''p-4'', ''p-4'', ''m-2'']
   \<and> seen ex_collector = [''m-2'']
   \<and> getClassCandidates (Text ex_text) ex_line_extractor ex_collector =
       (None, \<lparr>candidates = [''*'', ''p-4''], seen = [''m-2'', ''p-4''],
               extractorCache = [0 \<mapsto> [(''p-4'', [''p-4''])]],
               extractorCalls = [(0, ''p-4'')]\<rparr>)"
proof -
  have "getClassCandidates (Text ex_text) ex_line_extractor ex_collector =
       forEach (visitLine ex_line_extractor) (unseenLines ex_text (seen ex_collector))
         (withCache ex_line_extractor ex_collector)"
    using getClassCandidates_lines [of ex_text ex_collector ex_line_extractor] by blast
  also have "\<dots> = (None, \<lparr>candidates = [''*'', ''p-4''], seen = [''m-2'', ''p-4''],
               extractorCache = [0 \<mapsto> [(''p-4'', [''p-4''])]],
               extractorCalls = [(0, ''p-4'')]\<rparr>)"
    by (simp add: ex_unseen withCache_def visitLine_def ex_collector_def ex_line_extractor_def
        cache_of_def lru_get_def lru_set_def maxSize_def new_Set_def set_add_all_def set_add_def
        Let_def)
  finally show ?thesis
    by (simp add: ex_text_lines ex_collector_def)
qed


section \<open>Properties of the reading of the changed content\<close>

lemma cachedCandidates_upd_subset:
  assumes "\<And>line ms. (line, ms) \<in> set c' \<Longrightarrow>
            (\<exists>c. cs i = Some c \<and> (line, ms) \<in> set c) \<or> set ms \<subseteq> X"
  shows "cachedCandidates (cs(i \<mapsto> c')) \<subseteq> cachedCandidates cs \<union> X"
proof
  fix m assume "m \<in> cachedCandidates (cs(i \<mapsto> c'))"
  then obtain j c line ms where j: "(cs(i \<mapsto> c')) j = Some c" "(line, ms) \<in> set c" "m \<in> set ms"
    by (auto simp: cachedCandidates_def)
  show "m \<in> cachedCandidates cs \<union> X"
  proof (cases "j = i")
    case True
    with j have "(line, ms) \<in> set c'" by simp
    from assms [OF this] j(3) show ?thesis
      by (auto simp: cachedCandidates_def)
  next
    case False
    with j show ?thesis by (auto simp: cachedCandidates_def)
  qed
qed

lemma map_of_cached:
  assumes "map_of c line = Some ms" and "cs i = Some c"
  shows "set ms \<subseteq> cachedCandidates cs"
proof
  fix m assume m: "m \<in> set ms"
  from assms(1) have "(line, ms) \<in> set c" by (rule map_of_SomeD)
  with assms(2) m show "m \<in> cachedCandidates cs"
    unfolding cachedCandidates_def by blast
qed













text \<open>One content unit.\<close>

lemma withCache_known [simp]: "known (withCache ex st) = known st"
proof (cases "extractorCache st (ex_id ex)")
  case (Some c)
  then show ?thesis by (simp add: withCache_def)
next
  case None
  let ?cs = "extractorCache st"
  have a: "cachedCandidates (?cs(ex_id ex \<mapsto> [])) \<subseteq> cachedCandidates ?cs \<union> {}"
    by (rule cachedCandidates_upd_subset) simp
  have b: "cachedCandidates ?cs \<subseteq> cachedCandidates (?cs(ex_id ex \<mapsto> []))"
  proof
    fix m assume "m \<in> cachedCandidates ?cs"
    then obtain i c line ms where i: "?cs i = Some c" "(line, ms) \<in> set c" "m \<in> set ms"
      unfolding cachedCandidates_def by blast
    with None have "i \<noteq> ex_id ex" by auto
    with i have "(?cs(ex_id ex \<mapsto> [])) i = Some c" by simp
    with i(2,3) show "m \<in> cachedCandidates (?cs(ex_id ex \<mapsto> []))"
      unfolding cachedCandidates_def by blast
  qed
  from a b have "cachedCandidates (?cs(ex_id ex \<mapsto> [])) = cachedCandidates ?cs" by blast
  with None show ?thesis by (simp add: withCache_def known_def)
qed







lemma cachedCandidates_empty [simp]: "cachedCandidates Map.empty = {}"
  by (simp add: cachedCandidates_def)








end
